theory Spec2Isabelle
  imports Main
begin

section \<open>Values of the JavaScript runtime\<close>

text \<open>
  A call that may throw: \<open>Throws\<close> is the exception, \<open>Returns v\<close> the value.
  JavaScript truthiness is needed for strings that may be absent only: \<open>null\<close>,
  \<open>undefined\<close> and the empty string are falsy, every other string is truthy.
\<close>

datatype 'a attempt = Throws | Returns 'a

definition truthy :: "string option \<Rightarrow> bool" where
  "truthy v = (case v of None \<Rightarrow> False | Some str \<Rightarrow> str \<noteq> [])"

text \<open>\<open>String.prototype.includes\<close>: the pattern occurs as a contiguous part.\<close>

fun startsWith :: "string \<Rightarrow> string \<Rightarrow> bool" where
  "startsWith txt [] = True"
| "startsWith [] (p # ps) = False"
| "startsWith (c # cs) (p # ps) = (c = p \<and> startsWith cs ps)"

fun str_includes :: "string \<Rightarrow> string \<Rightarrow> bool" where
  "str_includes [] pat = (pat = [])"
| "str_includes (c # cs) pat = (startsWith (c # cs) pat \<or> str_includes cs pat)"

section \<open>Data model (types/models)\<close>

text \<open>
  \<open>User\<close>: the fields the session and permission code reads. \<open>None\<close> is a property that
  is missing (\<open>undefined\<close>) in the object received from the backend or from storage.
\<close>

record User =
  role :: "string option"
  token :: "string option"
  refresh_token :: "string option"

record RolePermissions =
  canViewUsers :: bool
  canCreateUsers :: bool
  canUpdateUsers :: bool
  canDeleteUsers :: bool
  canViewMerchants :: bool
  canCreateMerchants :: bool
  canUpdateMerchants :: bool
  canDeleteMerchants :: bool
  canViewAllMerchants :: bool

section \<open>Role permission table (hooks/usePermission.ts)\<close>

text \<open>
  \<open>rolePermissions\<close> is the object literal of the source, with its three own keys in the
  order written.
\<close>

definition rolePermissions :: "(string \<times> RolePermissions) list" where
  "rolePermissions =
    [(''super_admin'',
        \<lparr>canViewUsers = True, canCreateUsers = True, canUpdateUsers = True,
         canDeleteUsers = True, canViewMerchants = True, canCreateMerchants = True,
         canUpdateMerchants = True, canDeleteMerchants = True, canViewAllMerchants = True\<rparr>),
     (''admin'',
        \<lparr>canViewUsers = False, canCreateUsers = False, canUpdateUsers = False,
         canDeleteUsers = False, canViewMerchants = True, canCreateMerchants = True,
         canUpdateMerchants = True, canDeleteMerchants = True, canViewAllMerchants = True\<rparr>),
     (''merchant'',
        \<lparr>canViewUsers = False, canCreateUsers = False, canUpdateUsers = False,
         canDeleteUsers = False, canViewMerchants = True, canCreateMerchants = False,
         canUpdateMerchants = False, canDeleteMerchants = False, canViewAllMerchants = False\<rparr>)]"

text \<open>
  An object literal inherits the members of \<open>Object.prototype\<close> (ECMAScript): a property
  read finds an own key first and an inherited member otherwise. The inherited members
  are functions, or an object for \<open>__proto__\<close>, so they are truthy and have none of the nine
  flags.
\<close>

definition Object_prototype :: "string list" where
  "Object_prototype =
    [''constructor'', ''__defineGetter__'', ''__defineSetter__'', ''hasOwnProperty'',
     ''__lookupGetter__'', ''__lookupSetter__'', ''isPrototypeOf'', ''propertyIsEnumerable'',
     ''toString'', ''valueOf'', ''__proto__'', ''toLocaleString'']"

text \<open>What a read of the table hands back: one of its entries, or an inherited member.\<close>

datatype permissions_value = Permissions RolePermissions | Inherited string

text \<open>\<open>rolePermissions[key]\<close>; a missing role is the key \<open>undefined\<close>, found nowhere.\<close>

definition rolePermissions_at :: "string option \<Rightarrow> permissions_value option" where
  "rolePermissions_at key =
    (case key of
       None \<Rightarrow> None
     | Some k \<Rightarrow>
        (case map_of rolePermissions k of
           Some p \<Rightarrow> Some (Permissions p)
         | None \<Rightarrow> if k \<in> set Object_prototype then Some (Inherited k) else None))"

text \<open>
  \<open>getPermissions\<close> reads the user of the auth context: without a user every flag is false,
  otherwise \<open>rolePermissions[user.role] || rolePermissions.merchant\<close>.
\<close>

definition getPermissions :: "User option \<Rightarrow> permissions_value" where
  "getPermissions usr =
    (case usr of
       None \<Rightarrow>
        Permissions
         \<lparr>canViewUsers = False, canCreateUsers = False, canUpdateUsers = False,
          canDeleteUsers = False, canViewMerchants = False, canCreateMerchants = False,
          canUpdateMerchants = False, canDeleteMerchants = False, canViewAllMerchants = False\<rparr>
     | Some u \<Rightarrow>
        (case rolePermissions_at (role u) of
           Some v \<Rightarrow> v
         | None \<Rightarrow>
            (case rolePermissions_at (Some ''merchant'') of
               Some m \<Rightarrow> m
             | None \<Rightarrow>
                Permissions
                 \<lparr>canViewUsers = False, canCreateUsers = False, canUpdateUsers = False,
                  canDeleteUsers = False, canViewMerchants = False, canCreateMerchants = False,
                  canUpdateMerchants = False, canDeleteMerchants = False,
                  canViewAllMerchants = False\<rparr>)))"

text \<open>\<open>permissions[permission] ?? false\<close>: an inherited member has no such property.\<close>

definition hasPermission :: "User option \<Rightarrow> (RolePermissions \<Rightarrow> bool) \<Rightarrow> bool" where
  "hasPermission usr permission =
    (case getPermissions usr of
       Permissions p \<Rightarrow> permission p
     | Inherited m \<Rightarrow> False)"

definition canAccessRoute :: "User option \<Rightarrow> string list \<Rightarrow> bool" where
  "canAccessRoute usr requiredRoles =
    (case usr of
       None \<Rightarrow> False
     | Some u \<Rightarrow> (case role u of None \<Rightarrow> False | Some r \<Rightarrow> r \<in> set requiredRoles))"

section \<open>Requests, effects and the state of the client\<close>

text \<open>
  A request is its axios config (\<open>url\<close>, the custom flag \<open>_retry\<close>, the
  \<open>Authorization\<close> header) together with the party that awaits its promise:
  \<open>awaited_by = None\<close> for application code, \<open>awaited_by = Some r\<close> for the refresh
  call that the interceptor activation handling \<open>r\<close> awaits. A replayed config keeps
  \<open>_retry\<close>, and the replay settles the promise of the request it replays.
\<close>

datatype Request =
  Request (url: string) (retry: bool) (authorization: "string option")
    (awaited_by: "Request option")

fun mark_retry :: "Request \<Rightarrow> Request" where
  "mark_retry (Request u rt a w) = Request u True a w"

fun set_authorization :: "string \<Rightarrow> Request \<Rightarrow> Request" where
  "set_authorization h (Request u rt a w) = Request u rt (Some h) w"

definition bearer :: "string \<Rightarrow> string" where
  "bearer tok = ''Bearer '' @ tok"

text \<open>
  The calls that leave the session code, in the order made: a request handed to the
  network, a promise of application code fulfilled or rejected, an assignment to
  \<open>window.location.href\<close>, a \<open>localStorage.removeItem\<close>, a call of \<open>authApi.clearUser\<close>.
\<close>

datatype effect =
    Sent Request
  | Succeeded Request
  | Failed Request
  | Navigated string
  | Removed string
  | Called_clearUser

type_synonym Storage = "string \<Rightarrow> string option"

text \<open>
  \<open>localStorage\<close>, the React state of \<open>AuthProvider\<close> (\<open>user\<close>, \<open>isLoading\<close>), the
  module-level variables \<open>isRefreshing\<close> and \<open>refreshSubscribers\<close> (a subscriber is the
  closure over its \<open>originalRequest\<close>), \<open>window.location.pathname\<close>, and the log of effects.
  The log records a navigation; the page reload that a browser performs on it is not part
  of the script and is not followed.
\<close>

record State =
  localStorage :: Storage
  user :: "User option"
  isLoading :: bool
  isRefreshing :: bool
  refreshSubscribers :: "Request list"
  pathname :: string
  trace :: "effect list"

definition emit :: "effect \<Rightarrow> State \<Rightarrow> State" where
  "emit e s = s\<lparr>trace := trace s @ [e]\<rparr>"

definition getItem :: "string \<Rightarrow> State \<Rightarrow> string option" where
  "getItem k s = localStorage s k"

definition setItem :: "string \<Rightarrow> string \<Rightarrow> State \<Rightarrow> State" where
  "setItem k v s = s\<lparr>localStorage := (localStorage s)(k := Some v)\<rparr>"

definition removeItem :: "string \<Rightarrow> State \<Rightarrow> State" where
  "removeItem k s = emit (Removed k) (s\<lparr>localStorage := (localStorage s)(k := None)\<rparr>)"

definition setUser :: "User option \<Rightarrow> State \<Rightarrow> State" where
  "setUser u s = s\<lparr>user := u\<rparr>"

definition setIsLoading :: "bool \<Rightarrow> State \<Rightarrow> State" where
  "setIsLoading b s = s\<lparr>isLoading := b\<rparr>"

text \<open>The state of a freshly mounted provider: \<open>useState(null)\<close>, \<open>useState(true)\<close>.\<close>

definition initial_state :: "Storage \<Rightarrow> string \<Rightarrow> State" where
  "initial_state ls path =
    \<lparr>localStorage = ls, user = None, isLoading = True, isRefreshing = False,
     refreshSubscribers = [], pathname = path, trace = []\<rparr>"

section \<open>HTTP gateway (api/client.ts)\<close>

text \<open>The request interceptor reads the token at call time; \<open>apiClient\<close> then sends.\<close>

definition request_interceptor :: "State \<Rightarrow> Request \<Rightarrow> Request" where
  "request_interceptor s r =
    (case getItem ''auth_token'' s of
       None \<Rightarrow> r
     | Some tok \<Rightarrow> if tok \<noteq> [] then set_authorization (bearer tok) r else r)"

definition apiClient :: "Request \<Rightarrow> State \<Rightarrow> State" where
  "apiClient r s = emit (Sent (request_interceptor s r)) s"

definition isAuthRequest :: "Request \<Rightarrow> bool" where
  "isAuthRequest r =
    (str_includes (url r) ''/auth/login'' \<or> str_includes (url r) ''/auth/forgot-password''
     \<or> str_includes (url r) ''/auth/reset-password'' \<or> str_includes (url r) ''/auth/register'')"

text \<open>
  The response interceptor of the gateway, error side; the status is \<open>None\<close> when there
  is no response (network failure, timeout). It always rejects, so the error goes on to
  the next response interceptor.
\<close>

definition client_response_error :: "Request \<Rightarrow> nat option \<Rightarrow> State \<Rightarrow> State" where
  "client_response_error r status s =
    (if status = Some 401 \<and> \<not> isAuthRequest r then
       (let s1 = removeItem ''user_data'' (removeItem ''auth_token'' s)
        in if \<not> str_includes (pathname s1) ''/login''
           then emit (Navigated ''/login?reason=unauthorized'') s1
           else s1)
     else s)"

section \<open>Auth API (api/auth.ts)\<close>

text \<open>
  \<open>JSON.parse\<close> and \<open>JSON.stringify\<close> belong to the runtime and are parameters:
  \<open>parse txt\<close> is \<open>Throws\<close> on text that is not JSON, \<open>Returns None\<close> on text whose value
  is falsy (such as \<open>null\<close>) and \<open>Returns (Some u)\<close> on an object.
\<close>

definition getStoredUser :: "(string \<Rightarrow> User option attempt) \<Rightarrow> State \<Rightarrow> User option attempt" where
  "getStoredUser parse s =
    (case getItem ''user_data'' s of
       None \<Rightarrow> Returns None
     | Some userData \<Rightarrow>
        if userData = [] \<or> userData = ''undefined'' \<or> userData = ''null'' then Returns None
        else (case parse userData of
                Throws \<Rightarrow> Returns None
              | Returns v \<Rightarrow> Returns v))"

definition storeUser :: "(User \<Rightarrow> string) \<Rightarrow> User \<Rightarrow> State \<Rightarrow> State" where
  "storeUser stringify u s = setItem ''user_data'' (stringify u) s"

definition clearUser :: "State \<Rightarrow> State" where
  "clearUser s = removeItem ''refresh_token'' (removeItem ''user_data'' (emit Called_clearUser s))"

definition authApi_isAuthenticated :: "State \<Rightarrow> bool" where
  "authApi_isAuthenticated s = truthy (getItem ''auth_token'' s)"

definition getRefreshToken :: "State \<Rightarrow> string option" where
  "getRefreshToken s = getItem ''refresh_token'' s"

definition storeRefreshToken :: "string \<Rightarrow> State \<Rightarrow> State" where
  "storeRefreshToken tok s = setItem ''refresh_token'' tok s"

text \<open>
  \<open>authApi.refreshToken\<close> posts to the refresh endpoint through \<open>apiClient\<close>; its promise
  is awaited by the interceptor activation that handles \<open>originalRequest\<close>.
\<close>

definition authApi_refreshToken :: "Request \<Rightarrow> State \<Rightarrow> State" where
  "authApi_refreshToken originalRequest s =
    apiClient (Request ''/auth/refresh'' False None (Some originalRequest)) s"

text \<open>\<open>authApi.logout\<close> posts to the logout endpoint and swallows a failure of the call.\<close>

definition authApi_logout :: "State \<Rightarrow> State" where
  "authApi_logout s = apiClient (Request ''/auth/logout'' False None None) s"

section \<open>Session provider (AuthProvider)\<close>

definition isAuthenticated :: "State \<Rightarrow> bool" where
  "isAuthenticated s = (case user s of None \<Rightarrow> False | Some u \<Rightarrow> True)"

text \<open>\<open>initializeAuth\<close>: an exception of \<open>getStoredUser\<close> would leave the effect unfinished.\<close>

definition initializeAuth :: "(string \<Rightarrow> User option attempt) \<Rightarrow> State \<Rightarrow> State attempt" where
  "initializeAuth parse s =
    (case getStoredUser parse s of
       Throws \<Rightarrow> Throws
     | Returns storedUser \<Rightarrow>
        (case storedUser of
           None \<Rightarrow> Returns (setIsLoading False s)
         | Some u \<Rightarrow>
            if authApi_isAuthenticated s then Returns (setIsLoading False (setUser (Some u) s))
            else Returns (setIsLoading False s)))"

definition subscribeTokenRefresh :: "Request \<Rightarrow> State \<Rightarrow> State" where
  "subscribeTokenRefresh r s = s\<lparr>refreshSubscribers := refreshSubscribers s @ [r]\<rparr>"

text \<open>
  A subscriber sets the header of its request and resolves its promise with the replay;
  \<open>onTokenRefreshed\<close> calls the subscribers in array order and empties the array.
\<close>

fun notify :: "string \<Rightarrow> Request list \<Rightarrow> State \<Rightarrow> State" where
  "notify tok [] s = s"
| "notify tok (r # rs) s = notify tok rs (apiClient (set_authorization (bearer tok) r) s)"

definition onTokenRefreshed :: "string \<Rightarrow> State \<Rightarrow> State" where
  "onTokenRefreshed tok s = (notify tok (refreshSubscribers s) s)\<lparr>refreshSubscribers := []\<rparr>"

text \<open>
  The \<open>catch\<close> block of the refresh, and the rejection of a request's promise: application
  code sees the failure; a refresh call that fails throws inside the \<open>try\<close> of the
  activation awaiting it, whose \<open>catch\<close> block runs and rejects in turn.
\<close>

definition refresh_catch :: "State \<Rightarrow> State" where
  "refresh_catch s = setUser None (clearUser (s\<lparr>isRefreshing := False\<rparr>))"

fun reject_promise :: "Request \<Rightarrow> State \<Rightarrow> State" where
  "reject_promise (Request u rt a None) s = emit (Failed (Request u rt a None)) s"
| "reject_promise (Request u rt a (Some originalRequest)) s =
     reject_promise originalRequest (refresh_catch s)"

text \<open>
  The response interceptor of the provider up to its first suspension. The verdict on the
  failed request's promise: rejected with an error carrying the config, or left pending
  (a refresh was started for it, or it subscribed to the one in flight).
\<close>

datatype verdict = Reject Request | Wait

definition auth_response_error :: "Request \<Rightarrow> nat option \<Rightarrow> State \<Rightarrow> verdict \<times> State" where
  "auth_response_error r status s =
    (if status = Some 401 \<and> \<not> retry r then
       (let originalRequest = mark_retry r in
        if \<not> truthy (getRefreshToken s) then
          (Reject originalRequest, setUser None (clearUser s))
        else if \<not> isRefreshing s then
          (Wait, authApi_refreshToken originalRequest (s\<lparr>isRefreshing := True\<rparr>))
        else
          (Wait, subscribeTokenRefresh originalRequest s))
     else (Reject r, s))"

text \<open>
  The interceptor after \<open>await authApi.refreshToken\<close> has returned: \<open>userData\<close> is
  \<open>extractUserData(response.data)\<close>, \<open>None\<close> when that is \<open>null\<close> or \<open>undefined\<close> (reading
  \<open>userData.token\<close> then throws). Every throw lands in the \<open>catch\<close> block.
\<close>

definition refresh_resumed :: "(User \<Rightarrow> string) \<Rightarrow> Request \<Rightarrow> User option \<Rightarrow> State \<Rightarrow> State" where
  "refresh_resumed stringify originalRequest userData s =
    (case userData of
       None \<Rightarrow> reject_promise originalRequest (refresh_catch s)
     | Some u \<Rightarrow>
        (case token u of
           None \<Rightarrow> reject_promise originalRequest (refresh_catch s)
         | Some newToken \<Rightarrow>
            if newToken = [] then reject_promise originalRequest (refresh_catch s)
            else
              (let s1 = setItem ''auth_token'' newToken s;
                   s2 = (case refresh_token u of
                           None \<Rightarrow> s1
                         | Some newRefreshToken \<Rightarrow>
                            if newRefreshToken \<noteq> [] then storeRefreshToken newRefreshToken s1
                            else s1);
                   s3 = setUser (Some u) (storeUser stringify u s2);
                   s4 = onTokenRefreshed newToken s3
               in apiClient originalRequest s4)))"

text \<open>
  What the network hands back for a request in flight: an error (with its status, if
  any) or a success (with the \<open>userData\<close> of its body, read by the refresh only). An error
  passes the gateway's response interceptor, then the provider's; a success passes both
  unchanged and settles the promise of whoever awaits the request.
\<close>

datatype event = Response_error Request "nat option" | Response_ok Request "User option"

definition provider_response_error :: "Request \<Rightarrow> nat option \<Rightarrow> State \<Rightarrow> State" where
  "provider_response_error r status s =
    (case auth_response_error r status s of
       (Reject r', s') \<Rightarrow> reject_promise r' s'
     | (Wait, s') \<Rightarrow> s')"

definition step :: "(User \<Rightarrow> string) \<Rightarrow> event \<Rightarrow> State \<Rightarrow> State" where
  "step stringify ev s =
    (case ev of
       Response_error r status \<Rightarrow>
        provider_response_error r status (client_response_error r status s)
     | Response_ok r userData \<Rightarrow>
        (case awaited_by r of
           None \<Rightarrow> emit (Succeeded r) s
         | Some originalRequest \<Rightarrow> refresh_resumed stringify originalRequest userData s))"

definition run :: "(User \<Rightarrow> string) \<Rightarrow> event list \<Rightarrow> State \<Rightarrow> State" where
  "run stringify evs s = fold (step stringify) evs s"

definition unauthorized :: "Request \<Rightarrow> event" where
  "unauthorized r = Response_error r (Some 401)"

section \<open>Route guard (routes/AppRoutes.tsx)\<close>

datatype outcome = Loading | Navigate_login | Navigate_dashboard | Children

text \<open>\<open>allowedRoles\<close> is optional; an array, also an empty one, is truthy.\<close>

definition ProtectedRoute :: "State \<Rightarrow> string list option \<Rightarrow> outcome" where
  "ProtectedRoute s allowedRoles =
    (if isLoading s then Loading
     else if \<not> isAuthenticated s then Navigate_login
     else
       (case allowedRoles of
          None \<Rightarrow> Children
        | Some roles \<Rightarrow>
           (case user s of
              None \<Rightarrow> Children
            | Some u \<Rightarrow>
               (case role u of
                  None \<Rightarrow> Navigate_dashboard
                | Some r \<Rightarrow> if r \<notin> set roles then Navigate_dashboard else Children))))"

definition AuthRoute :: "State \<Rightarrow> outcome" where
  "AuthRoute s =
    (if isLoading s then Loading
     else if isAuthenticated s then Navigate_dashboard
     else Children)"

section \<open>Reading the log\<close>

fun sent :: "effect list \<Rightarrow> Request list" where
  "sent [] = []"
| "sent (Sent r # es) = r # sent es"
| "sent (e # es) = sent es"

fun failed :: "effect list \<Rightarrow> Request list" where
  "failed [] = []"
| "failed (Failed r # es) = r # failed es"
| "failed (e # es) = failed es"

fun navigated :: "effect list \<Rightarrow> string list" where
  "navigated [] = []"
| "navigated (Navigated u # es) = u # navigated es"
| "navigated (e # es) = navigated es"

definition is_refresh_call :: "Request \<Rightarrow> bool" where
  "is_refresh_call r = (url r = ''/auth/refresh'')"

definition refresh_calls :: "effect list \<Rightarrow> Request list" where
  "refresh_calls es = filter is_refresh_call (sent es)"

definition clearUser_calls :: "effect list \<Rightarrow> nat" where
  "clearUser_calls es = length (filter (\<lambda>e. e = Called_clearUser) es)"


text \<open>What the gateway's response interceptor adds to the log for an error.\<close>

definition gateway_effects :: "Request \<Rightarrow> nat option \<Rightarrow> State \<Rightarrow> effect list" where
  "gateway_effects r status s =
    (if status = Some 401 \<and> \<not> isAuthRequest r then
       [Removed ''auth_token'', Removed ''user_data'']
       @ (if str_includes (pathname s) ''/login'' then []
          else [Navigated ''/login?reason=unauthorized''])
     else [])"

text \<open>The effects added to the log between an earlier state and a later one.\<close>

definition since :: "State \<Rightarrow> State \<Rightarrow> effect list" where
  "since s s' = drop (length (trace s)) (trace s')"

section \<open>Logout (AuthProvider)\<close>

text \<open>
  \<open>logout\<close> sets \<open>isLoading\<close>, posts the logout request and suspends on
  \<open>authApi.logout()\<close>. That call returns when the promise of the logout request is
  fulfilled or rejected (it swallows the rejection), and only then do \<open>catch\<close> and
  \<open>finally\<close> run; \<open>finally\<close> clears. The request is known by its url.
\<close>

definition logout_begin :: "State \<Rightarrow> State" where
  "logout_begin s = authApi_logout (setIsLoading True s)"

definition logout_finally :: "State \<Rightarrow> State" where
  "logout_finally s = setIsLoading False (setUser None (clearUser (removeItem ''auth_token'' s)))"

fun settled :: "string \<Rightarrow> effect list \<Rightarrow> bool" where
  "settled u [] = False"
| "settled u (Succeeded r # es) = (url r = u \<or> settled u es)"
| "settled u (Failed r # es) = (url r = u \<or> settled u es)"
| "settled u (e # es) = settled u es"

text \<open>
  The suspended \<open>logout\<close>, begun in state \<open>b\<close>, under the responses that arrive while it
  waits: it resumes at the first state in which the logout request has settled. \<open>None\<close>:
  the responses are used up and the awaited call has not returned, so \<open>finally\<close> has not
  run.
\<close>

fun logout_await :: "(User \<Rightarrow> string) \<Rightarrow> State \<Rightarrow> event list \<Rightarrow> State \<Rightarrow> State option" where
  "logout_await stringify b [] s =
     (if settled ''/auth/logout'' (since b s) then Some (logout_finally s) else None)"
| "logout_await stringify b (ev # evs) s =
     (if settled ''/auth/logout'' (since b s) then Some (logout_finally s)
      else logout_await stringify b evs (step stringify ev s))"

definition logout :: "(User \<Rightarrow> string) \<Rightarrow> event list \<Rightarrow> State \<Rightarrow> State option" where
  "logout stringify evs s = logout_await stringify (logout_begin s) evs (logout_begin s)"

section \<open>Concrete states and requests\<close>

text \<open>A signed-out client, and a client signed in with a role, both after initialisation.\<close>

definition signed_out :: State where
  "signed_out = setIsLoading False (initial_state (map_of []) ''/merchants'')"



definition signed_in :: "string \<Rightarrow> State" where
  "signed_in r =
    setIsLoading False
      (setUser (Some \<lparr>role = Some r, token = Some ''at1'', refresh_token = Some ''rt1''\<rparr>)
        (initial_state
          (map_of [(''auth_token'', ''at1''), (''refresh_token'', ''rt1''), (''user_data'', ''{..}'')])
          ''/merchants''))"

text \<open>
  Requests of application code, issued while the token \<open>at1\<close> was stored; the refresh
  call as it is sent for a request when no access token is stored; the user that a
  successful refresh returns.
\<close>

definition req_users :: Request where
  "req_users = Request ''/users'' False (Some ''Bearer at1'') None"

definition req_merchants :: Request where
  "req_merchants = Request ''/merchants'' False (Some ''Bearer at1'') None"

definition req_dashboard :: Request where
  "req_dashboard = Request ''/dashboard'' False (Some ''Bearer at1'') None"

definition refresh_for :: "Request \<Rightarrow> Request" where
  "refresh_for r = Request ''/auth/refresh'' False None (Some (mark_retry r))"


definition fresh_user :: User where
  "fresh_user = \<lparr>role = Some ''admin'', token = Some ''at2'', refresh_token = Some ''rt2''\<rparr>"

text \<open>
  A signed-in client whose coordinator is idle while its queue still holds a request, as
  a failed refresh leaves it.
\<close>

definition idle_with_leftover :: State where
  "idle_with_leftover = (signed_in ''admin'')\<lparr>refreshSubscribers := [mark_retry req_dashboard]\<rparr>"

text \<open>A client with the given storage, before initialisation.\<close>

definition stored :: "(string \<times> string) list \<Rightarrow> State" where
  "stored kvs = initial_state (map_of kvs) ''/dashboard''"

text \<open>Stand-ins for the runtime: a parser that accepts one text only, a serialiser.\<close>

definition parse_only :: "string \<Rightarrow> User \<Rightarrow> string \<Rightarrow> User option attempt" where
  "parse_only good u txt = (if txt = good then Returns (Some u) else Throws)"

definition show_user :: "User \<Rightarrow> string" where
  "show_user u = ''{..}''"

text \<open>
  Scenarios, all starting from a signed-in admin: three requests answered 401 one after
  the other, then the refresh succeeding; one request refreshed successfully; two
  requests answered 401, the refresh still in flight.
\<close>

definition three_unauthorized :: State where
  "three_unauthorized =
    run show_user [unauthorized req_users, unauthorized req_merchants, unauthorized req_dashboard]
      (signed_in ''admin'')"

definition three_replayed :: State where
  "three_replayed =
    step show_user (Response_ok (refresh_for req_users) (Some fresh_user)) three_unauthorized"

definition refreshed_once :: State where
  "refreshed_once =
    run show_user [unauthorized req_users, Response_ok (refresh_for req_users) (Some fresh_user)]
      (signed_in ''admin'')"

definition two_waiting :: State where
  "two_waiting =
    run show_user [unauthorized req_users, unauthorized req_merchants] (signed_in ''admin'')"

text \<open>What an observer of the session sees: the published user and the three slots.\<close>

definition session_view ::
  "State \<Rightarrow> User option \<times> string option \<times> string option \<times> string option" where
  "session_view s =
    (user s, getItem ''auth_token'' s, getItem ''refresh_token'' s, getItem ''user_data'' s)"

section \<open>Role permission table: properties\<close>

text \<open>
  C5. For the role \<open>constructor\<close>, a name that the table inherits, \<open>getPermissions\<close> returns
  the inherited member and not the merchant set, and the permission to view merchants,
  which the merchant set grants, is denied; for \<open>unknown_role\<close> it returns the merchant
  set.
\<close>

theorem getPermissions_inherited_member:
  "getPermissions (Some \<lparr>role = Some ''constructor'', token = None, refresh_token = None\<rparr>)
     = Inherited ''constructor''
   \<and> getPermissions (Some \<lparr>role = Some ''constructor'', token = None, refresh_token = None\<rparr>)
     \<noteq> Permissions
        \<lparr>canViewUsers = False, canCreateUsers = False, canUpdateUsers = False,
         canDeleteUsers = False, canViewMerchants = True, canCreateMerchants = False,
         canUpdateMerchants = False, canDeleteMerchants = False, canViewAllMerchants = False\<rparr>
   \<and> \<not> hasPermission (Some \<lparr>role = Some ''constructor'', token = None, refresh_token = None\<rparr>)
        canViewMerchants
   \<and> getPermissions (Some \<lparr>role = Some ''toString'', token = None, refresh_token = None\<rparr>)
     = Inherited ''toString''
   \<and> getPermissions (Some \<lparr>role = Some ''unknown_role'', token = None, refresh_token = None\<rparr>)
     = Permissions
        \<lparr>canViewUsers = False, canCreateUsers = False, canUpdateUsers = False,
         canDeleteUsers = False, canViewMerchants = True, canCreateMerchants = False,
         canUpdateMerchants = False, canDeleteMerchants = False, canViewAllMerchants = False\<rparr>"
  by (simp add: getPermissions_def hasPermission_def rolePermissions_at_def rolePermissions_def
      Object_prototype_def)

text \<open>
  For every role that names no inherited member: the nine flags of the table for
  \<open>super_admin\<close>, \<open>admin\<close> and \<open>merchant\<close>, the merchant set for every other role string
  and for a missing role.
\<close>

lemma getPermissions_table:
  assumes "\<forall>k. role u = Some k \<longrightarrow> k \<notin> set Object_prototype"
  shows "getPermissions (Some u) =
    Permissions
     (if role u = Some ''super_admin'' then
        \<lparr>canViewUsers = True, canCreateUsers = True, canUpdateUsers = True,
         canDeleteUsers = True, canViewMerchants = True, canCreateMerchants = True,
         canUpdateMerchants = True, canDeleteMerchants = True, canViewAllMerchants = True\<rparr>
      else if role u = Some ''admin'' then
        \<lparr>canViewUsers = False, canCreateUsers = False, canUpdateUsers = False,
         canDeleteUsers = False, canViewMerchants = True, canCreateMerchants = True,
         canUpdateMerchants = True, canDeleteMerchants = True, canViewAllMerchants = True\<rparr>
      else
        \<lparr>canViewUsers = False, canCreateUsers = False, canUpdateUsers = False,
         canDeleteUsers = False, canViewMerchants = True, canCreateMerchants = False,
         canUpdateMerchants = False, canDeleteMerchants = False, canViewAllMerchants = False\<rparr>)"
proof (cases "role u")
  case None
  then show ?thesis
    by (simp add: getPermissions_def rolePermissions_at_def rolePermissions_def)
next
  case (Some k)
  then have "k \<notin> set Object_prototype" using assms by simp
  then show ?thesis
    using Some by (simp add: getPermissions_def rolePermissions_at_def rolePermissions_def)
qed

text \<open>Without a user, \<open>getPermissions\<close> grants nothing.\<close>

lemma getPermissions_no_user:
  "getPermissions None =
     Permissions
      \<lparr>canViewUsers = False, canCreateUsers = False, canUpdateUsers = False,
       canDeleteUsers = False, canViewMerchants = False, canCreateMerchants = False,
       canUpdateMerchants = False, canDeleteMerchants = False, canViewAllMerchants = False\<rparr>"
  by (simp add: getPermissions_def)

section \<open>Route guard: properties\<close>

text \<open>
  C6. Once the session is initialised: without an authenticated session the guard
  navigates to the login view for every allowlist; a merchant is sent to the default view
  by the allowlist \<open>[super_admin, admin]\<close> and an admin is let through; the check is plain
  membership of the role in the allowlist, so \<open>super_admin\<close> does not pass an allowlist
  that names \<open>admin\<close> only.
\<close>

theorem ProtectedRoute_decision:
  assumes "\<not> isLoading s"
  shows "(user s = None \<longrightarrow> (\<forall>allowedRoles. ProtectedRoute s allowedRoles = Navigate_login))
       \<and> (\<forall>u. user s = Some u \<and> role u = Some ''merchant'' \<longrightarrow>
             ProtectedRoute s (Some [''super_admin'', ''admin'']) = Navigate_dashboard)
       \<and> (\<forall>u. user s = Some u \<and> role u = Some ''admin'' \<longrightarrow>
             ProtectedRoute s (Some [''super_admin'', ''admin'']) = Children)
       \<and> (\<forall>u. user s = Some u \<and> role u = Some ''super_admin'' \<longrightarrow>
             ProtectedRoute s (Some [''admin'']) = Navigate_dashboard)
       \<and> (\<forall>u r roles. user s = Some u \<and> role u = Some r \<longrightarrow>
             ProtectedRoute s (Some roles) =
               (if r \<in> set roles then Children else Navigate_dashboard))"
  using assms
  by (auto simp add: ProtectedRoute_def isAuthenticated_def)

theorem ProtectedRoute_decision_witness:
  "ProtectedRoute signed_out (Some [''super_admin'', ''admin'']) = Navigate_login
   \<and> ProtectedRoute signed_out None = Navigate_login
   \<and> ProtectedRoute (signed_in ''merchant'') (Some [''super_admin'', ''admin'']) = Navigate_dashboard
   \<and> ProtectedRoute (signed_in ''admin'') (Some [''super_admin'', ''admin'']) = Children
   \<and> ProtectedRoute (signed_in ''super_admin'') (Some [''admin'']) = Navigate_dashboard"
  using ProtectedRoute_decision [of signed_out]
        ProtectedRoute_decision [of "signed_in ''merchant''"]
        ProtectedRoute_decision [of "signed_in ''admin''"]
        ProtectedRoute_decision [of "signed_in ''super_admin''"]
  by (simp add: signed_out_def signed_in_def setIsLoading_def setUser_def initial_state_def)

section \<open>Session store: properties\<close>

lemmas store_defs = getItem_def setItem_def removeItem_def emit_def setUser_def setIsLoading_def
  clearUser_def getRefreshToken_def

text \<open>
  C8. \<open>isAuthenticated\<close> holds exactly when a user is published; it does not depend on
  the storage, and initialising a client that has no persisted identity leaves the
  session unauthenticated whatever token is persisted.
\<close>

theorem isAuthenticated_identity:
  "(isAuthenticated s \<longleftrightarrow> user s \<noteq> None)
   \<and> isAuthenticated (s\<lparr>localStorage := ls\<rparr>) = isAuthenticated s
   \<and> (ls ''user_data'' = None \<longrightarrow>
        initializeAuth parse (initial_state ls path)
          = Returns (setIsLoading False (initial_state ls path))
        \<and> \<not> isAuthenticated (setIsLoading False (initial_state ls path)))
   \<and> (\<exists>s'. initializeAuth parse (initial_state ls path) = Returns s'
          \<and> (isAuthenticated s' \<longleftrightarrow>
                (\<exists>u. getStoredUser parse (initial_state ls path) = Returns (Some u))
                \<and> truthy (ls ''auth_token'')))"
proof -
  have "\<exists>s'. initializeAuth parse (initial_state ls path) = Returns s'
          \<and> (isAuthenticated s' \<longleftrightarrow>
                (\<exists>u. getStoredUser parse (initial_state ls path) = Returns (Some u))
                \<and> truthy (ls ''auth_token''))"
  proof (cases "getStoredUser parse (initial_state ls path)")
    case Throws
    then show ?thesis
      by (simp add: getStoredUser_def split: option.splits if_splits attempt.splits)
  next
    case (Returns storedUser)
    then show ?thesis
      by (cases storedUser)
         (simp_all add: initializeAuth_def isAuthenticated_def authApi_isAuthenticated_def
            getItem_def setIsLoading_def setUser_def initial_state_def)
  qed
  moreover have "ls ''user_data'' = None \<longrightarrow>
        initializeAuth parse (initial_state ls path)
          = Returns (setIsLoading False (initial_state ls path))
        \<and> \<not> isAuthenticated (setIsLoading False (initial_state ls path))"
    by (simp add: isAuthenticated_def initializeAuth_def getStoredUser_def getItem_def
        initial_state_def setIsLoading_def)
  moreover have "(isAuthenticated s \<longleftrightarrow> user s \<noteq> None)
      \<and> isAuthenticated (s\<lparr>localStorage := ls\<rparr>) = isAuthenticated s"
    by (simp add: isAuthenticated_def split: option.splits)
  ultimately show ?thesis by blast
qed

theorem isAuthenticated_identity_witness:
  "authApi_isAuthenticated (stored [(''auth_token'', ''at1'')])
   \<and> initializeAuth (parse_only ''{..}'' \<lparr>role = None, token = None, refresh_token = None\<rparr>)
        (stored [(''auth_token'', ''at1'')])
       = Returns (setIsLoading False (stored [(''auth_token'', ''at1'')]))
   \<and> \<not> isAuthenticated (setIsLoading False (stored [(''auth_token'', ''at1'')]))"
  using isAuthenticated_identity
    [of "stored [(''auth_token'', ''at1'')]" "map_of [(''auth_token'', ''at1'')]"
        "parse_only ''{..}'' \<lparr>role = None, token = None, refresh_token = None\<rparr>" "''/dashboard''"]
  by (simp add: stored_def authApi_isAuthenticated_def truthy_def getItem_def initial_state_def)

text \<open>\<open>authApi.clearUser\<close> alone empties the identity and refresh slots, also when repeated.\<close>

lemma clearUser_twice:
  "getItem ''user_data'' (clearUser s) = None \<and> getItem ''refresh_token'' (clearUser s) = None
   \<and> session_view (clearUser (clearUser s)) = session_view (clearUser s)"
  by (simp add: session_view_def store_defs)

text \<open>
  C10. \<open>getStoredUser\<close> and \<open>initializeAuth\<close> never throw; when the identity slot is
  absent, holds the text \<open>undefined\<close> or \<open>null\<close>, or holds text that \<open>JSON.parse\<close> rejects,
  \<open>getStoredUser\<close> returns \<open>null\<close> and initialisation completes without a user.
\<close>

theorem getStoredUser_corrupted:
  "getStoredUser parse s \<noteq> Throws
   \<and> initializeAuth parse s \<noteq> Throws
   \<and> (getItem ''user_data'' s = None \<or> getItem ''user_data'' s = Some ''undefined''
        \<or> getItem ''user_data'' s = Some ''null''
        \<or> (\<exists>txt. getItem ''user_data'' s = Some txt \<and> parse txt = Throws)
      \<longrightarrow> getStoredUser parse s = Returns None
          \<and> initializeAuth parse s = Returns (setIsLoading False s))"
  by (auto simp add: initializeAuth_def getStoredUser_def split: option.splits attempt.splits)

theorem getStoredUser_corrupted_witness:
  "getStoredUser (parse_only ''{..}'' \<lparr>role = None, token = None, refresh_token = None\<rparr>)
      (stored [(''auth_token'', ''at1''), (''user_data'', ''{role:'')])
     = Returns None
   \<and> initializeAuth (parse_only ''{..}'' \<lparr>role = None, token = None, refresh_token = None\<rparr>)
      (stored [(''auth_token'', ''at1''), (''user_data'', ''{role:'')])
     = Returns (setIsLoading False (stored [(''auth_token'', ''at1''), (''user_data'', ''{role:'')]))
   \<and> getStoredUser (parse_only ''{..}'' \<lparr>role = None, token = None, refresh_token = None\<rparr>)
      (stored [(''auth_token'', ''at1''), (''user_data'', ''undefined'')])
     = Returns None
   \<and> getStoredUser (parse_only ''{..}'' \<lparr>role = None, token = None, refresh_token = None\<rparr>)
      (stored [(''auth_token'', ''at1'')])
     = Returns None"
  using getStoredUser_corrupted
      [of "parse_only ''{..}'' \<lparr>role = None, token = None, refresh_token = None\<rparr>"
          "stored [(''auth_token'', ''at1''), (''user_data'', ''{role:'')]"]
    getStoredUser_corrupted
      [of "parse_only ''{..}'' \<lparr>role = None, token = None, refresh_token = None\<rparr>"
          "stored [(''auth_token'', ''at1''), (''user_data'', ''undefined'')]"]
    getStoredUser_corrupted
      [of "parse_only ''{..}'' \<lparr>role = None, token = None, refresh_token = None\<rparr>"
          "stored [(''auth_token'', ''at1'')]"]
  by (simp add: stored_def parse_only_def getItem_def initial_state_def)

section \<open>Token refresh: properties\<close>




section \<open>Token refresh: how the steps change the state\<close>

lemma sent_append: "sent (xs @ ys) = sent xs @ sent ys"
  by (induction xs rule: sent.induct) simp_all

lemma failed_append: "failed (xs @ ys) = failed xs @ failed ys"
  by (induction xs rule: failed.induct) simp_all

lemma navigated_append: "navigated (xs @ ys) = navigated xs @ navigated ys"
  by (induction xs rule: navigated.induct) simp_all

lemma since_append: "trace s' = trace s @ es \<Longrightarrow> since s s' = es"
  by (simp add: since_def)

lemma reject_promise_app: "awaited_by r = None \<Longrightarrow> reject_promise r s = emit (Failed r) s"
  by (cases r) simp

lemma reject_promise_frame:
  "localStorage (reject_promise r s) ''auth_token'' = localStorage s ''auth_token''
   \<and> pathname (reject_promise r s) = pathname s
   \<and> refreshSubscribers (reject_promise r s) = refreshSubscribers s
   \<and> (\<exists>es. trace (reject_promise r s) = trace s @ es \<and> sent es = [] \<and> navigated es = [])"
proof (induction r s rule: reject_promise.induct)
  case (1 u rt a s)
  then show ?case by (simp add: emit_def)
next
  case (2 u rt a originalRequest s)
  have c: "trace (refresh_catch s) = trace s @ [Called_clearUser, Removed ''user_data'', Removed ''refresh_token'']"
    by (simp add: refresh_catch_def store_defs)
  from 2 obtain es where es: "trace (reject_promise originalRequest (refresh_catch s)) = trace (refresh_catch s) @ es"
     "sent es = []" "navigated es = []" by blast
  have "trace (reject_promise (Request u rt a (Some originalRequest)) s)
        = trace s @ ([Called_clearUser, Removed ''user_data'', Removed ''refresh_token''] @ es)"
    using es c by simp
  moreover have "sent ([Called_clearUser, Removed ''user_data'', Removed ''refresh_token''] @ es) = []"
      "navigated ([Called_clearUser, Removed ''user_data'', Removed ''refresh_token''] @ es) = []"
    using es by simp_all
  ultimately have "\<exists>es. trace (reject_promise (Request u rt a (Some originalRequest)) s) = trace s @ es \<and> sent es = [] \<and> navigated es = []"
    by blast
  moreover have "localStorage (reject_promise (Request u rt a (Some originalRequest)) s) ''auth_token'' = localStorage s ''auth_token''"
    using 2 by (simp add: refresh_catch_def store_defs)
  moreover have "pathname (reject_promise (Request u rt a (Some originalRequest)) s) = pathname s"
     "refreshSubscribers (reject_promise (Request u rt a (Some originalRequest)) s) = refreshSubscribers s"
    using 2 by (simp_all add: refresh_catch_def store_defs)
  ultimately show ?case by blast
qed

lemma request_interceptor_cong:
  "localStorage s' = localStorage s \<Longrightarrow> request_interceptor s' r = request_interceptor s r"
  by (simp add: request_interceptor_def getItem_def)

lemma notify_frame:
  "localStorage (notify tok rs s) = localStorage s
   \<and> user (notify tok rs s) = user s
   \<and> isLoading (notify tok rs s) = isLoading s
   \<and> isRefreshing (notify tok rs s) = isRefreshing s
   \<and> refreshSubscribers (notify tok rs s) = refreshSubscribers s
   \<and> pathname (notify tok rs s) = pathname s
   \<and> trace (notify tok rs s)
       = trace s @ map (\<lambda>r. Sent (request_interceptor s (set_authorization (bearer tok) r))) rs"
proof (induction rs arbitrary: s)
  case Nil
  then show ?case by simp
next
  case (Cons r rs)
  let ?s1 = "apiClient (set_authorization (bearer tok) r) s"
  have ls: "localStorage ?s1 = localStorage s" by (simp add: apiClient_def emit_def)
  have ri: "request_interceptor ?s1 = request_interceptor s"
    using request_interceptor_cong [OF ls] by (rule ext)
  show ?case
    using Cons [of ?s1] by (simp add: ri) (simp add: apiClient_def emit_def)
qed



lemma client_401_frame:
  "getRefreshToken (client_response_error r st s) = getRefreshToken s
   \<and> isRefreshing (client_response_error r st s) = isRefreshing s
   \<and> refreshSubscribers (client_response_error r st s) = refreshSubscribers s
   \<and> user (client_response_error r st s) = user s
   \<and> (\<exists>es. trace (client_response_error r st s) = trace s @ es \<and> sent es = [] \<and> failed es = [])"
  by (simp add: client_response_error_def store_defs Let_def)

lemma enqueue_step:
  assumes "isRefreshing s" and "truthy (getRefreshToken s)" and "\<not> retry r"
  shows "isRefreshing (step str (unauthorized r) s)
       \<and> getRefreshToken (step str (unauthorized r) s) = getRefreshToken s
       \<and> refreshSubscribers (step str (unauthorized r) s) = refreshSubscribers s @ [mark_retry r]
       \<and> (\<exists>es. trace (step str (unauthorized r) s) = trace s @ es \<and> sent es = [] \<and> failed es = [])"
proof -
  let ?c = "client_response_error r (Some 401) s"
  have c: "getRefreshToken ?c = getRefreshToken s" "isRefreshing ?c = isRefreshing s"
      "refreshSubscribers ?c = refreshSubscribers s"
      "\<exists>es. trace ?c = trace s @ es \<and> sent es = [] \<and> failed es = []"
    using client_401_frame [of r "Some 401" s] by simp_all
  have st: "step str (unauthorized r) s = subscribeTokenRefresh (mark_retry r) ?c"
    using assms c by (simp add: step_def provider_response_error_def unauthorized_def auth_response_error_def Let_def)
  show ?thesis
    using c assms by (simp add: st subscribeTokenRefresh_def getRefreshToken_def getItem_def)
qed

lemma enqueue_all:
  assumes "isRefreshing s" and "truthy (getRefreshToken s)" and "\<forall>r \<in> set rs. \<not> retry r"
  shows "isRefreshing (run str (map unauthorized rs) s)
       \<and> getRefreshToken (run str (map unauthorized rs) s) = getRefreshToken s
       \<and> refreshSubscribers (run str (map unauthorized rs) s)
           = refreshSubscribers s @ map mark_retry rs
       \<and> (\<exists>es. trace (run str (map unauthorized rs) s) = trace s @ es
              \<and> sent es = [] \<and> failed es = [])"
  using assms
proof (induction rs arbitrary: s)
  case Nil
  then show ?case by (simp add: run_def)
next
  case (Cons r rs)
  let ?s1 = "step str (unauthorized r) s"
  have r: "\<not> retry r" using Cons.prems by simp
  note e = enqueue_step [OF Cons.prems(1) Cons.prems(2) r, of str]
  from e obtain es1 where es1: "trace ?s1 = trace s @ es1" "sent es1 = []" "failed es1 = []"
    by blast
  have rt1: "truthy (getRefreshToken ?s1)" using e Cons.prems(2) by simp
  have rest: "\<forall>r \<in> set rs. \<not> retry r" using Cons.prems by simp
  have fl: "isRefreshing ?s1" using e by simp
  note ih = Cons.IH [OF fl rt1 rest]
  from ih obtain es2 where es2: "trace (run str (map unauthorized rs) ?s1) = trace ?s1 @ es2"
      "sent es2 = []" "failed es2 = []"
    by blast
  have run: "run str (map unauthorized (r # rs)) s = run str (map unauthorized rs) ?s1"
    by (simp add: run_def)
  have tr: "trace (run str (map unauthorized (r # rs)) s) = trace s @ (es1 @ es2)"
    using es1 es2 run by simp
  have pr: "sent (es1 @ es2) = []" "failed (es1 @ es2) = []"
    using es1 es2 by (simp_all add: sent_append failed_append)
  have "\<exists>es. trace (run str (map unauthorized (r # rs)) s) = trace s @ es
              \<and> sent es = [] \<and> failed es = []"
    using tr pr by blast
  moreover have "isRefreshing (run str (map unauthorized (r # rs)) s)"
    using ih run by simp
  moreover have "getRefreshToken (run str (map unauthorized (r # rs)) s) = getRefreshToken s"
    using ih e run by simp
  moreover have "refreshSubscribers (run str (map unauthorized (r # rs)) s)
           = refreshSubscribers s @ map mark_retry (r # rs)"
    using ih e run by simp
  ultimately show ?case by blast
qed

lemma start_step:
  assumes "\<not> isRefreshing s" and "truthy (getRefreshToken s)" and "\<not> retry a"
  shows "isRefreshing (step str (unauthorized a) s)
       \<and> getRefreshToken (step str (unauthorized a) s) = getRefreshToken s
       \<and> refreshSubscribers (step str (unauthorized a) s) = refreshSubscribers s
       \<and> (\<exists>es h. trace (step str (unauthorized a) s) = trace s @ es
              \<and> sent es = [Request ''/auth/refresh'' False h (Some (mark_retry a))]
              \<and> failed es = [])"
proof -
  let ?c = "client_response_error a (Some 401) s"
  have c: "getRefreshToken ?c = getRefreshToken s" "isRefreshing ?c = isRefreshing s"
      "refreshSubscribers ?c = refreshSubscribers s"
    using client_401_frame [of a "Some 401" s] by simp_all
  from client_401_frame [of a "Some 401" s] obtain es1 where
    es1: "trace ?c = trace s @ es1" "sent es1 = []" "failed es1 = []" by blast
  have st: "step str (unauthorized a) s = authApi_refreshToken (mark_retry a) (?c\<lparr>isRefreshing := True\<rparr>)"
    using assms c by (simp add: step_def provider_response_error_def unauthorized_def auth_response_error_def Let_def)
  have "\<exists>h. request_interceptor (?c\<lparr>isRefreshing := True\<rparr>)
        (Request ''/auth/refresh'' False None (Some (mark_retry a)))
      = Request ''/auth/refresh'' False h (Some (mark_retry a))"
    by (auto simp add: request_interceptor_def split: option.splits)
  then obtain h where h: "request_interceptor (?c\<lparr>isRefreshing := True\<rparr>)
        (Request ''/auth/refresh'' False None (Some (mark_retry a)))
      = Request ''/auth/refresh'' False h (Some (mark_retry a))"
    by blast
  have tr: "trace (step str (unauthorized a) s)
      = trace s @ (es1 @ [Sent (Request ''/auth/refresh'' False h (Some (mark_retry a)))])"
    using es1 h by (simp add: st authApi_refreshToken_def apiClient_def emit_def)
  have pr: "sent (es1 @ [Sent (Request ''/auth/refresh'' False h (Some (mark_retry a)))])
        = [Request ''/auth/refresh'' False h (Some (mark_retry a))]"
      "failed (es1 @ [Sent (Request ''/auth/refresh'' False h (Some (mark_retry a)))]) = []"
    using es1 by (simp_all add: sent_append failed_append)
  have "\<exists>es h. trace (step str (unauthorized a) s) = trace s @ es
              \<and> sent es = [Request ''/auth/refresh'' False h (Some (mark_retry a))]
              \<and> failed es = []"
    using tr pr by blast
  moreover have "isRefreshing (step str (unauthorized a) s)"
      "getRefreshToken (step str (unauthorized a) s) = getRefreshToken s"
      "refreshSubscribers (step str (unauthorized a) s) = refreshSubscribers s"
    using c by (simp_all add: st authApi_refreshToken_def apiClient_def emit_def
        getRefreshToken_def getItem_def)
  ultimately show ?thesis by blast
qed



lemma start_step_non_auth:
  assumes "\<not> isRefreshing s" and "truthy (getRefreshToken s)" and "\<not> retry a"
    and "\<not> isAuthRequest a"
  shows "\<exists>es. trace (step str (unauthorized a) s) = trace s @ es
            \<and> sent es = [refresh_for a] \<and> failed es = []"
proof -
  let ?c = "client_response_error a (Some 401) s"
  have c: "getRefreshToken ?c = getRefreshToken s" "isRefreshing ?c = isRefreshing s"
    using client_401_frame [of a "Some 401" s] by simp_all
  from client_401_frame [of a "Some 401" s] obtain es1 where
    es1: "trace ?c = trace s @ es1" "sent es1 = []" "failed es1 = []" by blast
  have tok: "getItem ''auth_token'' ?c = None"
    using assms(4) by (simp add: client_response_error_def store_defs Let_def)
  have st: "step str (unauthorized a) s
      = authApi_refreshToken (mark_retry a) (?c\<lparr>isRefreshing := True\<rparr>)"
    using assms c
    by (simp add: step_def provider_response_error_def unauthorized_def auth_response_error_def
        Let_def)
  have ri: "request_interceptor (?c\<lparr>isRefreshing := True\<rparr>)
        (Request ''/auth/refresh'' False None (Some (mark_retry a))) = refresh_for a"
    using tok by (simp add: request_interceptor_def refresh_for_def getItem_def)
  have tr: "trace (step str (unauthorized a) s) = trace s @ (es1 @ [Sent (refresh_for a)])"
    using es1 ri by (simp add: st authApi_refreshToken_def apiClient_def emit_def)
  have "sent (es1 @ [Sent (refresh_for a)]) = [refresh_for a]"
      "failed (es1 @ [Sent (refresh_for a)]) = []"
    using es1 by (simp_all add: sent_append failed_append)
  then show ?thesis using tr by blast
qed

lemma set_authorization_twice:
  "set_authorization h (set_authorization h' r) = set_authorization h r"
  by (cases r) simp

lemma request_interceptor_token:
  "getItem ''auth_token'' s = Some tok \<Longrightarrow> tok \<noteq> [] \<Longrightarrow>
     request_interceptor s r = set_authorization (bearer tok) r"
  by (simp add: request_interceptor_def)

lemma refresh_success:
  assumes "token u = Some tok" and "tok \<noteq> []"
  shows "getItem ''auth_token'' (refresh_resumed str trig (Some u) s) = Some tok
       \<and> getItem ''user_data'' (refresh_resumed str trig (Some u) s) = Some (str u)
       \<and> getRefreshToken (refresh_resumed str trig (Some u) s)
           = (if truthy (refresh_token u) then refresh_token u else getRefreshToken s)
       \<and> user (refresh_resumed str trig (Some u) s) = Some u
       \<and> isRefreshing (refresh_resumed str trig (Some u) s) = isRefreshing s
       \<and> refreshSubscribers (refresh_resumed str trig (Some u) s) = []
       \<and> trace (refresh_resumed str trig (Some u) s)
           = trace s @ map (\<lambda>r. Sent (set_authorization (bearer tok) r)) (refreshSubscribers s @ [trig])"
proof -
  define s1 where "s1 = setItem ''auth_token'' tok s"
  define s2 where "s2 = (case refresh_token u of
                           None \<Rightarrow> s1
                         | Some newRefreshToken \<Rightarrow>
                            if newRefreshToken \<noteq> [] then storeRefreshToken newRefreshToken s1
                            else s1)"
  define s3 where "s3 = setUser (Some u) (storeUser str u s2)"
  define s4 where "s4 = onTokenRefreshed tok s3"
  have res: "refresh_resumed str trig (Some u) s = apiClient trig s4"
    unfolding refresh_resumed_def s4_def s3_def s2_def s1_def Let_def using assms by simp
  have p2: "getItem ''auth_token'' s2 = Some tok" "trace s2 = trace s"
      "refreshSubscribers s2 = refreshSubscribers s" "isRefreshing s2 = isRefreshing s"
      "getRefreshToken s2 = (if truthy (refresh_token u) then refresh_token u else getRefreshToken s)"
    by (auto simp add: s2_def s1_def storeRefreshToken_def store_defs truthy_def split: option.splits)
  have p3: "getItem ''auth_token'' s3 = Some tok" "trace s3 = trace s"
      "refreshSubscribers s3 = refreshSubscribers s" "isRefreshing s3 = isRefreshing s"
      "getRefreshToken s3 = (if truthy (refresh_token u) then refresh_token u else getRefreshToken s)"
      "user s3 = Some u" "getItem ''user_data'' s3 = Some (str u)"
    using p2 by (simp_all add: s3_def storeUser_def store_defs)
  note n = notify_frame [of tok "refreshSubscribers s3" s3]
  have ri: "\<And>r. request_interceptor s3 r = set_authorization (bearer tok) r"
    using request_interceptor_token [OF p3(1) assms(2)] .
  have p4: "getItem ''auth_token'' s4 = Some tok"
      "trace s4 = trace s @ map (\<lambda>r. Sent (set_authorization (bearer tok) r)) (refreshSubscribers s)"
      "refreshSubscribers s4 = []" "isRefreshing s4 = isRefreshing s"
      "getRefreshToken s4 = (if truthy (refresh_token u) then refresh_token u else getRefreshToken s)"
      "user s4 = Some u" "getItem ''user_data'' s4 = Some (str u)"
    using n p3
    by (simp_all add: s4_def onTokenRefreshed_def ri set_authorization_twice getItem_def
        getRefreshToken_def)
  have ri4: "request_interceptor s4 trig = set_authorization (bearer tok) trig"
    using request_interceptor_token [OF p4(1) assms(2)] .
  show ?thesis
    using p4 by (simp add: res apiClient_def emit_def ri4 getItem_def getRefreshToken_def)
qed

lemma sent_map: "sent (map (\<lambda>r. Sent (f r)) xs) = map f xs"
  by (induction xs) simp_all

lemma failed_map: "failed (map (\<lambda>r. Sent (f r)) xs) = []"
  by (induction xs) simp_all


text \<open>The definitions of the model, for evaluating it on concrete states.\<close>

lemmas model_defs = unauthorized_def run_def step_def provider_response_error_def
  auth_response_error_def client_response_error_def refresh_resumed_def refresh_catch_def
  onTokenRefreshed_def authApi_refreshToken_def apiClient_def request_interceptor_def
  subscribeTokenRefresh_def isAuthRequest_def initial_state_def storeUser_def
  storeRefreshToken_def store_defs truthy_def bearer_def since_def Let_def
  is_refresh_call_def clearUser_calls_def

section \<open>Token refresh: single flight and replay\<close>

text \<open>
  C1, as the code has it. From a coordinator that is idle (\<open>isRefreshing\<close> false) with a
  refresh token stored, let any number of fresh requests, none of them to an
  authentication endpoint, be answered 401 one after the other. Exactly one request is
  sent, the refresh call, on behalf of the first of them; nothing is rejected; every later
  request is queued, in order of arrival, behind what the queue holds already. When the
  refresh succeeds with a token, the queue is replayed in its order and emptied, and the
  request that started the refresh is replayed last, every replay with the new token.
\<close>

theorem single_flight_refresh:
  assumes "\<not> isRefreshing s" and "truthy (getRefreshToken s)"
    and "\<not> retry a" and "\<not> isAuthRequest a"
    and "\<forall>r \<in> set rs. \<not> retry r \<and> \<not> isAuthRequest r"
    and "s1 = run str (map unauthorized (a # rs)) s"
    and "token u = Some tok" and "tok \<noteq> []"
    and "s2 = step str (Response_ok (refresh_for a) (Some u)) s1"
  shows "sent (since s s1) = [refresh_for a]
       \<and> failed (since s s1) = []
       \<and> isRefreshing s1
       \<and> refreshSubscribers s1 = refreshSubscribers s @ map mark_retry rs
       \<and> sent (since s1 s2)
           = map (set_authorization (bearer tok)) (refreshSubscribers s)
             @ map (\<lambda>r. set_authorization (bearer tok) (mark_retry r)) (rs @ [a])
       \<and> failed (since s1 s2) = []
       \<and> refreshSubscribers s2 = []
       \<and> getItem ''auth_token'' s2 = Some tok"
proof -
  let ?s0 = "step str (unauthorized a) s"
  note st = start_step [OF assms(1) assms(2) assms(3), of str]
  from start_step_non_auth [OF assms(1) assms(2) assms(3) assms(4), of str]
  obtain es0 where es0: "trace ?s0 = trace s @ es0" "sent es0 = [refresh_for a]" "failed es0 = []"
    by blast
  have fl: "isRefreshing ?s0" and rt: "truthy (getRefreshToken ?s0)"
    and q0: "refreshSubscribers ?s0 = refreshSubscribers s"
    using st assms(2) by simp_all
  have fresh: "\<forall>r \<in> set rs. \<not> retry r" using assms(5) by simp
  have s1: "s1 = run str (map unauthorized rs) ?s0"
    using assms(6) by (simp add: run_def)
  note en = enqueue_all [OF fl rt fresh, of str]
  from en obtain es1 where es1: "trace s1 = trace ?s0 @ es1" "sent es1 = []" "failed es1 = []"
    unfolding s1 by blast
  have t1: "trace s1 = trace s @ (es0 @ es1)" using es0 es1 by simp
  have a1: "sent (since s s1) = [refresh_for a]" "failed (since s s1) = []"
    using es0 es1 by (simp_all add: since_append [OF t1] sent_append failed_append)
  have q1: "refreshSubscribers s1 = refreshSubscribers s @ map mark_retry rs"
    and f1: "isRefreshing s1"
    using en q0 unfolding s1 by simp_all
  have s2: "s2 = refresh_resumed str (mark_retry a) (Some u) s1"
    using assms(9) by (simp add: step_def refresh_for_def)
  note su = refresh_success [OF assms(7) assms(8), of str "mark_retry a" s1]
  have t2: "trace s2 = trace s1 @ map (\<lambda>r. Sent (set_authorization (bearer tok) r))
              (refreshSubscribers s @ map mark_retry rs @ [mark_retry a])"
    using su q1 unfolding s2 by simp
  have a2: "sent (since s1 s2)
           = map (set_authorization (bearer tok)) (refreshSubscribers s)
             @ map (\<lambda>r. set_authorization (bearer tok) (mark_retry r)) (rs @ [a])"
      "failed (since s1 s2) = []"
    by (simp_all add: since_append [OF t2] sent_append failed_append sent_map failed_map comp_def)
  have a3: "refreshSubscribers s2 = []" "getItem ''auth_token'' s2 = Some tok"
    using su unfolding s2 by simp_all
  show ?thesis using a1 f1 q1 a2 a3 by blast
qed

theorem single_flight_refresh_witness:
  "refreshSubscribers three_unauthorized = [mark_retry req_merchants, mark_retry req_dashboard]
   \<and> sent (since (signed_in ''admin'') three_unauthorized) = [refresh_for req_users]
   \<and> sent (since three_unauthorized three_replayed)
       = [set_authorization (bearer ''at2'') (mark_retry req_merchants),
          set_authorization (bearer ''at2'') (mark_retry req_dashboard),
          set_authorization (bearer ''at2'') (mark_retry req_users)]
   \<and> getItem ''auth_token'' three_replayed = Some ''at2''
   \<and> sent (since
        (run show_user [unauthorized req_users, unauthorized req_merchants] idle_with_leftover)
        (step show_user (Response_ok (refresh_for req_users) (Some fresh_user))
          (run show_user [unauthorized req_users, unauthorized req_merchants] idle_with_leftover)))
       = [set_authorization (bearer ''at2'') (mark_retry req_dashboard),
          set_authorization (bearer ''at2'') (mark_retry req_merchants),
          set_authorization (bearer ''at2'') (mark_retry req_users)]"
  using single_flight_refresh
    [where s = "signed_in ''admin''" and a = req_users and rs = "[req_merchants, req_dashboard]"
       and ?s1.0 = three_unauthorized and str = show_user and u = fresh_user and tok = "''at2''"
       and ?s2.0 = three_replayed]
    single_flight_refresh
    [where s = idle_with_leftover and a = req_users and rs = "[req_merchants]"
       and ?s1.0 = "run show_user [unauthorized req_users, unauthorized req_merchants] idle_with_leftover"
       and str = show_user and u = fresh_user and tok = "''at2''"
       and ?s2.0 = "step show_user (Response_ok (refresh_for req_users) (Some fresh_user))
          (run show_user [unauthorized req_users, unauthorized req_merchants] idle_with_leftover)"]
  by (simp add: three_unauthorized_def three_replayed_def idle_with_leftover_def signed_in_def
      initial_state_def setIsLoading_def setUser_def getRefreshToken_def getItem_def truthy_def
      req_users_def req_merchants_def req_dashboard_def fresh_user_def isAuthRequest_def)

text \<open>
  C1, as stated, promises the request that started the refresh to be replayed first. With
  \<open>/users\<close>, \<open>/merchants\<close>, \<open>/dashboard\<close> answered 401 in this order, the replays are
  \<open>/merchants\<close>, \<open>/dashboard\<close>, \<open>/users\<close>.
\<close>

theorem trigger_replayed_last:
  "sent (since (signed_in ''admin'') three_unauthorized) = [refresh_for req_users]
   \<and> map url (sent (since three_unauthorized three_replayed))
       = [''/merchants'', ''/dashboard'', ''/users'']
   \<and> map url (sent (since three_unauthorized three_replayed))
       \<noteq> map url [req_users, req_merchants, req_dashboard]"
  by (simp add: three_unauthorized_def three_replayed_def req_users_def req_merchants_def
      req_dashboard_def refresh_for_def fresh_user_def signed_in_def show_user_def model_defs)

text \<open>
  C2. After a successful refresh the coordinator is still refreshing: the next fresh
  request answered 401 is queued, no refresh call is sent for it and nothing is rejected.
\<close>

theorem stays_refreshing_after_success:
  "isRefreshing refreshed_once
   \<and> refreshSubscribers refreshed_once = []
   \<and> getRefreshToken refreshed_once = Some ''rt2''
   \<and> sent (since refreshed_once (step show_user (unauthorized req_merchants) refreshed_once)) = []
   \<and> failed (since refreshed_once (step show_user (unauthorized req_merchants) refreshed_once)) = []
   \<and> refreshSubscribers (step show_user (unauthorized req_merchants) refreshed_once)
       = [mark_retry req_merchants]"
  by (simp add: refreshed_once_def req_users_def req_merchants_def refresh_for_def
      fresh_user_def signed_in_def show_user_def model_defs)

text \<open>
  C3. With \<open>/users\<close> awaiting the refresh and \<open>/merchants\<close> queued: when the refresh call
  fails with status 500, \<open>/users\<close> alone is rejected and \<open>clearUser\<close> is called once, while
  \<open>/merchants\<close> stays in the queue, neither rejected nor replayed; when it fails with
  status 401, nothing is rejected, \<open>clearUser\<close> is not called, and the refresh call itself
  joins the queue.
\<close>

theorem queued_left_pending_on_refresh_failure:
  "refreshSubscribers two_waiting = [mark_retry req_merchants]
   \<and> failed (since two_waiting
        (step show_user (Response_error (refresh_for req_users) (Some 500)) two_waiting))
       = [mark_retry req_users]
   \<and> refreshSubscribers
        (step show_user (Response_error (refresh_for req_users) (Some 500)) two_waiting)
       = [mark_retry req_merchants]
   \<and> clearUser_calls (since two_waiting
        (step show_user (Response_error (refresh_for req_users) (Some 500)) two_waiting)) = 1
   \<and> failed (since two_waiting
        (step show_user (Response_error (refresh_for req_users) (Some 401)) two_waiting)) = []
   \<and> clearUser_calls (since two_waiting
        (step show_user (Response_error (refresh_for req_users) (Some 401)) two_waiting)) = 0
   \<and> refreshSubscribers
        (step show_user (Response_error (refresh_for req_users) (Some 401)) two_waiting)
       = [mark_retry req_merchants, mark_retry (refresh_for req_users)]"
  by (simp add: two_waiting_def req_users_def req_merchants_def refresh_for_def
      signed_in_def show_user_def model_defs)

section \<open>Token refresh: what holds in every state\<close>

text \<open>A successful refresh leaves \<open>isRefreshing\<close> as it was, set.\<close>

lemma success_keeps_refreshing:
  assumes "token u = Some tok" and "tok \<noteq> []" and "awaited_by refresh = Some originalRequest"
  shows "isRefreshing (step str (Response_ok refresh (Some u)) s) = isRefreshing s"
  using refresh_success [OF assms(1) assms(2), of str originalRequest s] assms(3)
  by (simp add: step_def)

text \<open>
  A refresh call that fails with a status other than 401, or without a response: the
  request that started the refresh is rejected, \<open>clearUser\<close> is called once, the user and
  the refresh token are gone, the coordinator is idle, and the queue is left as it was.
\<close>

lemma clearUser_calls_append:
  "clearUser_calls (xs @ ys) = clearUser_calls xs + clearUser_calls ys"
  by (simp add: clearUser_calls_def)

lemma refresh_failure_path:
  assumes "awaited_by refresh = Some originalRequest" and "awaited_by originalRequest = None"
    and "status \<noteq> Some 401"
  shows "failed (since s (step str (Response_error refresh status) s)) = [originalRequest]
       \<and> sent (since s (step str (Response_error refresh status) s)) = []
       \<and> clearUser_calls (since s (step str (Response_error refresh status) s)) = 1
       \<and> refreshSubscribers (step str (Response_error refresh status) s) = refreshSubscribers s
       \<and> \<not> isRefreshing (step str (Response_error refresh status) s)
       \<and> user (step str (Response_error refresh status) s) = None
       \<and> getRefreshToken (step str (Response_error refresh status) s) = None"
proof -
  obtain u rt a where r: "refresh = Request u rt a (Some originalRequest)"
    using assms(1) by (cases refresh) simp
  have st: "step str (Response_error refresh status) s
      = emit (Failed originalRequest) (refresh_catch s)"
    using assms(3) r reject_promise_app [OF assms(2)]
    by (simp add: step_def provider_response_error_def auth_response_error_def
        client_response_error_def)
  show ?thesis
    unfolding st
    by (simp add: refresh_catch_def store_defs since_def clearUser_calls_def)
qed

text \<open>
  Without a refresh token in storage, an error response is rejected to the caller at
  once, with one call of \<open>clearUser\<close> when it is a first 401; and as long as only error
  responses arrive, no request is sent, so no refresh is attempted.
\<close>

lemma client_trace:
  "trace (client_response_error r status s) = trace s @ gateway_effects r status s"
  by (simp add: client_response_error_def gateway_effects_def store_defs Let_def)

lemma gateway_effects_read:
  "sent (gateway_effects r status s) = [] \<and> failed (gateway_effects r status s) = []
   \<and> clearUser_calls (gateway_effects r status s) = 0"
  by (simp add: gateway_effects_def clearUser_calls_def)

lemma rejected_at_once_without_token:
  assumes "\<not> truthy (getRefreshToken s)" and "awaited_by r = None"
  shows "failed (since s (step str (Response_error r status) s))
           = [if status = Some 401 \<and> \<not> retry r then mark_retry r else r]
       \<and> sent (since s (step str (Response_error r status) s)) = []
       \<and> clearUser_calls (since s (step str (Response_error r status) s))
           = (if status = Some 401 \<and> \<not> retry r then 1 else 0)
       \<and> isRefreshing (step str (Response_error r status) s) = isRefreshing s
       \<and> refreshSubscribers (step str (Response_error r status) s) = refreshSubscribers s"
proof -
  let ?c = "client_response_error r status s"
  let ?g = "gateway_effects r status s"
  have c: "\<not> truthy (getRefreshToken ?c)" "isRefreshing ?c = isRefreshing s"
      "refreshSubscribers ?c = refreshSubscribers s"
    using assms(1) client_401_frame [of r status s] by simp_all
  note g = gateway_effects_read [of r status s]
  show ?thesis
  proof (cases "status = Some 401 \<and> \<not> retry r")
    case True
    have aw: "awaited_by (mark_retry r) = None" using assms(2) by (cases r) simp
    have st: "step str (Response_error r status) s
        = emit (Failed (mark_retry r)) (setUser None (clearUser ?c))"
      using True c(1)
      by (simp add: step_def provider_response_error_def auth_response_error_def Let_def
          reject_promise_app [OF aw])
    have tr: "trace (step str (Response_error r status) s)
        = trace s @ (?g @ [Called_clearUser, Removed ''user_data'', Removed ''refresh_token'',
             Failed (mark_retry r)])"
      unfolding st by (simp add: store_defs client_trace)
    have fl: "isRefreshing (step str (Response_error r status) s) = isRefreshing s"
        "refreshSubscribers (step str (Response_error r status) s) = refreshSubscribers s"
      unfolding st using c by (simp_all add: store_defs)
    note sn = since_append [OF tr]
    show ?thesis
      unfolding sn using True g fl
      by (simp add: sent_append failed_append clearUser_calls_append)
         (simp add: clearUser_calls_def)
  next
    case False
    have st: "step str (Response_error r status) s = emit (Failed r) ?c"
      using False
      by (auto simp add: step_def provider_response_error_def auth_response_error_def
          reject_promise_app [OF assms(2)])
    have tr: "trace (step str (Response_error r status) s) = trace s @ (?g @ [Failed r])"
      unfolding st by (simp add: emit_def client_trace)
    have fl: "isRefreshing (step str (Response_error r status) s) = isRefreshing s"
        "refreshSubscribers (step str (Response_error r status) s) = refreshSubscribers s"
      unfolding st using c by (simp_all add: emit_def)
    note sn = since_append [OF tr]
    show ?thesis
      unfolding sn using False g fl
      by (simp add: sent_append failed_append clearUser_calls_append)
         (simp add: clearUser_calls_def)
  qed
qed

lemma reject_promise_no_token:
  "\<not> truthy (getRefreshToken s) \<Longrightarrow> \<not> truthy (getRefreshToken (reject_promise r s))"
proof (induction r s rule: reject_promise.induct)
  case (1 u rt a s)
  then show ?case by (simp add: store_defs)
next
  case (2 u rt a originalRequest s)
  have "\<not> truthy (getRefreshToken (refresh_catch s))"
    by (simp add: refresh_catch_def store_defs truthy_def)
  then show ?case using 2 by simp
qed

lemma error_without_token:
  assumes "\<not> truthy (getRefreshToken s)"
  shows "\<not> truthy (getRefreshToken (step str (Response_error r status) s))
       \<and> (\<exists>es. trace (step str (Response_error r status) s) = trace s @ es \<and> sent es = [])"
proof -
  let ?c = "client_response_error r status s"
  have c: "\<not> truthy (getRefreshToken ?c)"
    using assms client_401_frame [of r status s] by simp
  from client_401_frame [of r status s] obtain es1 where
    es1: "trace ?c = trace s @ es1" "sent es1 = []" by blast
  have "\<exists>r' c'. step str (Response_error r status) s = reject_promise r' c'
          \<and> \<not> truthy (getRefreshToken c') \<and> (\<exists>es. trace c' = trace ?c @ es \<and> sent es = [])"
  proof (cases "status = Some 401 \<and> \<not> retry r")
    case True
    have "step str (Response_error r status) s = reject_promise (mark_retry r) (setUser None (clearUser ?c))"
      using True c
      by (simp add: step_def provider_response_error_def auth_response_error_def Let_def)
    moreover have "\<not> truthy (getRefreshToken (setUser None (clearUser ?c)))"
      by (simp add: store_defs truthy_def)
    moreover have "trace (setUser None (clearUser ?c))
        = trace ?c @ [Called_clearUser, Removed ''user_data'', Removed ''refresh_token'']"
      "sent [Called_clearUser, Removed ''user_data'', Removed ''refresh_token''] = []"
      by (simp_all add: store_defs)
    ultimately show ?thesis by blast
  next
    case False
    have "step str (Response_error r status) s = reject_promise r ?c"
      using False
      by (auto simp add: step_def provider_response_error_def auth_response_error_def)
    moreover have "trace ?c = trace ?c @ []" "sent [] = []" by simp_all
    ultimately show ?thesis using c by blast
  qed
  then obtain r' c' es2 where
    st: "step str (Response_error r status) s = reject_promise r' c'"
    and c': "\<not> truthy (getRefreshToken c')"
    and es2: "trace c' = trace ?c @ es2" "sent es2 = []"
    by blast
  from reject_promise_frame [of r' c'] obtain es3 where
    es3: "trace (reject_promise r' c') = trace c' @ es3" "sent es3 = []" by blast
  have "trace (step str (Response_error r status) s) = trace s @ (es1 @ es2 @ es3)"
    using es1 es2 es3 st by simp
  moreover have "sent (es1 @ es2 @ es3) = []"
    using es1 es2 es3 by (simp add: sent_append)
  ultimately have "\<exists>es. trace (step str (Response_error r status) s) = trace s @ es \<and> sent es = []"
    by blast
  then show ?thesis
    using reject_promise_no_token [OF c', of r'] st by simp
qed

lemma no_refresh_without_token:
  assumes "\<not> truthy (getRefreshToken s)"
  shows "\<not> truthy (getRefreshToken (run str (map (\<lambda>(r, status). Response_error r status) errs) s))
       \<and> sent (since s (run str (map (\<lambda>(r, status). Response_error r status) errs) s)) = []"
proof -
  have "\<not> truthy (getRefreshToken (run str (map (\<lambda>(r, status). Response_error r status) errs) s))
       \<and> (\<exists>es. trace (run str (map (\<lambda>(r, status). Response_error r status) errs) s) = trace s @ es
              \<and> sent es = [])"
    using assms
  proof (induction errs arbitrary: s)
    case Nil
    then show ?case by (simp add: run_def)
  next
    case (Cons e errs)
    obtain r status where e: "e = (r, status)" by (cases e)
    let ?s1 = "step str (Response_error r status) s"
    note one = error_without_token [OF Cons.prems, of str r status]
    from one obtain es1 where es1: "trace ?s1 = trace s @ es1" "sent es1 = []" by blast
    have nt: "\<not> truthy (getRefreshToken ?s1)" using one by simp
    note ih = Cons.IH [OF nt]
    from ih obtain es2 where
      es2: "trace (run str (map (\<lambda>(r, status). Response_error r status) errs) ?s1) = trace ?s1 @ es2"
        "sent es2 = []" by blast
    have run: "run str (map (\<lambda>(r, status). Response_error r status) (e # errs)) s
        = run str (map (\<lambda>(r, status). Response_error r status) errs) ?s1"
      by (simp add: run_def e)
    have "trace (run str (map (\<lambda>(r, status). Response_error r status) (e # errs)) s)
        = trace s @ (es1 @ es2)" "sent (es1 @ es2) = []"
      using es1 es2 run by (simp_all add: sent_append)
    then have "\<exists>es. trace (run str (map (\<lambda>(r, status). Response_error r status) (e # errs)) s)
        = trace s @ es \<and> sent es = []"
      by blast
    then show ?case using ih run by simp
  qed
  then show ?thesis using since_append by auto
qed

section \<open>Logout: properties\<close>

text \<open>
  C9. In a client that has refreshed its token once, the logout request answered 401 is
  queued behind the refresh flag that is still set: the awaited call does not return,
  \<open>finally\<close> does not run, the user stays published and the refresh token stored; further
  responses do not release it.
\<close>

theorem logout_parked_behind_refresh:
  "sent (since refreshed_once (logout_begin refreshed_once))
     = [Request ''/auth/logout'' False (Some ''Bearer at2'') None]
   \<and> logout show_user [unauthorized (Request ''/auth/logout'' False (Some ''Bearer at2'') None)]
        refreshed_once = None
   \<and> refreshSubscribers
        (run show_user [unauthorized (Request ''/auth/logout'' False (Some ''Bearer at2'') None)]
          (logout_begin refreshed_once))
       = [Request ''/auth/logout'' True (Some ''Bearer at2'') None]
   \<and> user
        (run show_user [unauthorized (Request ''/auth/logout'' False (Some ''Bearer at2'') None)]
          (logout_begin refreshed_once))
       = Some fresh_user
   \<and> getItem ''refresh_token''
        (run show_user [unauthorized (Request ''/auth/logout'' False (Some ''Bearer at2'') None)]
          (logout_begin refreshed_once))
       = Some ''rt2''
   \<and> logout show_user
        [unauthorized (Request ''/auth/logout'' False (Some ''Bearer at2'') None),
         unauthorized req_merchants, Response_ok req_dashboard None]
        refreshed_once = None"
  by (simp add: logout_def logout_begin_def authApi_logout_def refreshed_once_def req_users_def
      req_merchants_def req_dashboard_def refresh_for_def fresh_user_def signed_in_def
      show_user_def model_defs)

text \<open>
  What does hold: \<open>finally\<close> leaves the user absent and the three slots empty, also when
  repeated; a \<open>logout\<close> that returns has run it; and after a \<open>logout\<close> that returned, a
  second one returns on the response to its request, whatever that is, with the same view.
\<close>

lemma logout_finally_clears:
  "session_view (logout_finally s) = (None, None, None, None)
   \<and> \<not> isLoading (logout_finally s)
   \<and> session_view (logout_finally (logout_finally s)) = session_view (logout_finally s)"
  by (simp add: logout_finally_def session_view_def store_defs)

lemma logout_await_returns:
  "logout_await str b evs s = Some s' \<Longrightarrow> \<exists>x. s' = logout_finally x"
  by (induction str b evs s rule: logout_await.induct) (auto split: if_splits)

lemma logout_returns_cleared:
  assumes "logout str evs s = Some s'"
  shows "session_view s' = (None, None, None, None) \<and> \<not> isLoading s'"
  using logout_await_returns [of str "logout_begin s" evs "logout_begin s" s'] assms
    logout_finally_clears
  by (auto simp add: logout_def)

lemma settled_failed: "r \<in> set (failed es) \<Longrightarrow> settled (url r) es"
  by (induction es rule: failed.induct) auto

lemma settled_succeeded: "Succeeded r \<in> set es \<Longrightarrow> settled (url r) es"
  by (induction "url r" es rule: settled.induct) auto

lemma logout_begin_cleared:
  assumes "session_view s1 = (None, None, None, None)"
  shows "trace (logout_begin s1) = trace s1 @ [Sent (Request ''/auth/logout'' False None None)]
       \<and> \<not> truthy (getRefreshToken (logout_begin s1))
       \<and> since (logout_begin s1) (logout_begin s1) = []"
  using assms
  by (simp add: logout_begin_def authApi_logout_def apiClient_def request_interceptor_def
      session_view_def since_def truthy_def store_defs)

lemma second_logout_returns:
  assumes "logout str evs1 s = Some s1"
  shows "(\<exists>s2. logout str (Response_error (Request ''/auth/logout'' False None None) status # evs2) s1
             = Some s2
           \<and> session_view s2 = session_view s1)
       \<and> (\<exists>s2. logout str (Response_ok (Request ''/auth/logout'' False None None) body # evs2) s1
             = Some s2
           \<and> session_view s2 = session_view s1)"
proof -
  let ?lr = "Request ''/auth/logout'' False None None"
  let ?b = "logout_begin s1"
  have v1: "session_view s1 = (None, None, None, None)"
    using logout_returns_cleared [OF assms] by simp
  note b = logout_begin_cleared [OF v1]
  have nt: "\<not> truthy (getRefreshToken ?b)" using b by simp
  have b0: "\<not> settled ''/auth/logout'' (since ?b ?b)" using b by simp
  have aw: "awaited_by ?lr = None" by simp
  note rej = rejected_at_once_without_token [OF nt aw, of str status]
  let ?e = "step str (Response_error ?lr status) ?b"
  have "(if status = Some 401 \<and> \<not> retry ?lr then mark_retry ?lr else ?lr) \<in> set (failed (since ?b ?e))"
    using rej by simp
  from settled_failed [OF this] have se: "settled ''/auth/logout'' (since ?b ?e)"
    by (simp split: if_splits)
  have e1: "logout str (Response_error ?lr status # evs2) s1 = Some (logout_finally ?e)"
    using b0 se by (cases evs2) (simp_all add: logout_def)
  let ?k = "step str (Response_ok ?lr body) ?b"
  have "trace ?k = trace ?b @ [Succeeded ?lr]"
    by (simp add: step_def emit_def)
  then have "Succeeded ?lr \<in> set (since ?b ?k)"
    by (simp add: since_def)
  from settled_succeeded [OF this] have sk: "settled ''/auth/logout'' (since ?b ?k)" by simp
  have k1: "logout str (Response_ok ?lr body # evs2) s1 = Some (logout_finally ?k)"
    using b0 sk by (cases evs2) (simp_all add: logout_def)
  show ?thesis
    using e1 k1 v1 logout_finally_clears by simp
qed

section \<open>HTTP gateway: the order of effects on a 401\<close>




end
